theory Spec2Isabelle
  imports Main "HOL-Library.Word" "HOL-Library.List_Lexorder"
begin

unbundle bit_operations_syntax

section \<open>CipherLink: the client's cryptography module\<close>

text \<open>
  The module under verification is the client's \<^verbatim>\<open>lib/crypto\<close> file together with the two
  stores that call it (\<^verbatim>\<open>authStore\<close>, \<^verbatim>\<open>chatStore\<close>). It composes the host's Web Crypto API,
  \<^verbatim>\<open>TextEncoder\<close>/\<^verbatim>\<open>TextDecoder\<close> and \<^verbatim>\<open>btoa\<close>/\<^verbatim>\<open>atob\<close>. The host functions are modelled from
  their standards (WHATWG Encoding and HTML, RFC 4648, RFC 2104, RFC 8018, NIST SP 800-38D);
  the cryptographic cores they rest on (the SHA-2 digests, the AES key stream and GHASH tag,
  the curve's point group) are parameters, collected in the record \<open>host\<close>.
\<close>

subsection \<open>Values of the language\<close>

text \<open>A JavaScript string is a sequence of UTF-16 code units; a \<^verbatim>\<open>Uint8Array\<close> is a
  sequence of bytes.\<close>

type_synonym js_string = "16 word list"
type_synonym bytes = "8 word list"

text \<open>A string literal of the source (ASCII only).\<close>

definition lit :: "string \<Rightarrow> js_string" where
  "lit s = map (\<lambda>c. of_nat (of_char c)) s"

text \<open>Exceptions of the host that the module can meet. A rejected promise is \<open>Inl\<close>.\<close>

datatype error =
    InvalidCharacterError   \<comment> \<open>\<^verbatim>\<open>btoa\<close> and \<^verbatim>\<open>atob\<close>\<close>
  | OperationError          \<comment> \<open>\<^verbatim>\<open>crypto.subtle\<close>: failed decryption, bad derivation parameters\<close>
  | DataError               \<comment> \<open>\<^verbatim>\<open>crypto.subtle.importKey\<close>: malformed key material\<close>

text \<open>\<^verbatim>\<open>await p\<close> followed by the rest of an async function: a rejection of \<open>p\<close> rejects
  the whole function.\<close>

definition await :: "error + 'a \<Rightarrow> ('a \<Rightarrow> error + 'b) \<Rightarrow> error + 'b" where
  "await p k = (case p of Inl e \<Rightarrow> Inl e | Inr v \<Rightarrow> k v)"

subsection \<open>TextEncoder and TextDecoder\<close>

text \<open>
  \<^verbatim>\<open>TextEncoder.encode\<close> first converts the string to scalar values (a surrogate pair is
  one code point, an unpaired surrogate becomes U+FFFD), then writes UTF-8.
\<close>

definition is_high_surrogate :: "nat \<Rightarrow> bool" where
  "is_high_surrogate u = (0xD800 \<le> u \<and> u \<le> 0xDBFF)"

definition is_low_surrogate :: "nat \<Rightarrow> bool" where
  "is_low_surrogate u = (0xDC00 \<le> u \<and> u \<le> 0xDFFF)"

definition is_surrogate :: "nat \<Rightarrow> bool" where
  "is_surrogate u = (0xD800 \<le> u \<and> u \<le> 0xDFFF)"

definition scalar :: "nat \<Rightarrow> bool" where
  "scalar c = (c < 0x110000 \<and> \<not> is_surrogate c)"

fun scalar_values :: "nat list \<Rightarrow> nat list" where
  "scalar_values [] = []"
| "scalar_values [u] = [if is_surrogate u then 0xFFFD else u]"
| "scalar_values (u # v # rest) =
     (if is_high_surrogate u \<and> is_low_surrogate v
      then (0x10000 + (u - 0xD800) * 0x400 + (v - 0xDC00)) # scalar_values rest
      else (if is_surrogate u then 0xFFFD else u) # scalar_values (v # rest))"

definition utf8_encode_scalar :: "nat \<Rightarrow> nat list" where
  "utf8_encode_scalar c =
     (if c < 0x80 then [c]
      else if c < 0x800 then [0xC0 + c div 64, 0x80 + c mod 64]
      else if c < 0x10000 then [0xE0 + c div 4096, 0x80 + (c div 64) mod 64, 0x80 + c mod 64]
      else [0xF0 + c div 262144, 0x80 + (c div 4096) mod 64, 0x80 + (c div 64) mod 64,
            0x80 + c mod 64])"

definition utf8_encode :: "nat list \<Rightarrow> nat list" where
  "utf8_encode cs = concat (map utf8_encode_scalar cs)"

definition stringToArrayBuffer :: "js_string \<Rightarrow> bytes" where
  "stringToArrayBuffer str = map of_nat (utf8_encode (scalar_values (map unat str)))"

text \<open>
  The UTF-8 decoder of the Encoding standard, run to the end of the input. Its state is the
  code point under construction, the number of continuation bytes still needed (the
  standard's \<open>bytes needed - bytes seen\<close>) and the boundaries of the next continuation byte.
  A byte that cannot continue a sequence yields U+FFFD and is read again as a first byte.
\<close>

function utf8_decoder :: "nat \<Rightarrow> nat \<Rightarrow> nat \<Rightarrow> nat \<Rightarrow> nat list \<Rightarrow> nat list" where
  "utf8_decoder cp needed lower upper [] = (if needed \<noteq> 0 then [0xFFFD] else [])"
| "utf8_decoder cp needed lower upper (b # bs) =
     (if needed = 0 then
        (if b \<le> 0x7F then b # utf8_decoder 0 0 0x80 0xBF bs
         else if 0xC2 \<le> b \<and> b \<le> 0xDF then utf8_decoder (b mod 32) 1 0x80 0xBF bs
         else if 0xE0 \<le> b \<and> b \<le> 0xEF then
           utf8_decoder (b mod 16) 2 (if b = 0xE0 then 0xA0 else 0x80)
             (if b = 0xED then 0x9F else 0xBF) bs
         else if 0xF0 \<le> b \<and> b \<le> 0xF4 then
           utf8_decoder (b mod 8) 3 (if b = 0xF0 then 0x90 else 0x80)
             (if b = 0xF4 then 0x8F else 0xBF) bs
         else 0xFFFD # utf8_decoder 0 0 0x80 0xBF bs)
      else if b < lower \<or> upper < b then 0xFFFD # utf8_decoder 0 0 0x80 0xBF (b # bs)
      else if needed = 1 then (cp * 64 + b mod 64) # utf8_decoder 0 0 0x80 0xBF bs
      else utf8_decoder (cp * 64 + b mod 64) (needed - 1) 0x80 0xBF bs)"
  by pat_completeness auto
termination
  by (relation "measure (\<lambda>(cp, needed, lower, upper, bs).
        2 * length bs + (if needed = 0 then 0 else 1))") auto

definition utf8_decode :: "nat list \<Rightarrow> nat list" where
  "utf8_decode bs = utf8_decoder 0 0 0x80 0xBF bs"

text \<open>\<^verbatim>\<open>new TextDecoder()\<close> has \<^verbatim>\<open>ignoreBOM\<close> false: a leading U+FEFF is not part of
  the output.\<close>

fun strip_bom :: "nat list \<Rightarrow> nat list" where
  "strip_bom [] = []"
| "strip_bom (c # cs) = (if c = 0xFEFF then cs else c # cs)"

definition utf16_encode_scalar :: "nat \<Rightarrow> nat list" where
  "utf16_encode_scalar c =
     (if c < 0x10000 then [c]
      else [0xD800 + (c - 0x10000) div 0x400, 0xDC00 + (c - 0x10000) mod 0x400])"

definition utf16_encode :: "nat list \<Rightarrow> nat list" where
  "utf16_encode cs = concat (map utf16_encode_scalar cs)"

definition arrayBufferToString :: "bytes \<Rightarrow> js_string" where
  "arrayBufferToString buffer =
     map of_nat (utf16_encode (strip_bom (utf8_decode (map unat buffer))))"

text \<open>\<^verbatim>\<open>String.prototype.isWellFormed\<close>: no unpaired surrogate.\<close>

fun well_formed_units :: "nat list \<Rightarrow> bool" where
  "well_formed_units [] = True"
| "well_formed_units [u] = (\<not> is_surrogate u)"
| "well_formed_units (u # v # rest) =
     (if is_high_surrogate u \<and> is_low_surrogate v then well_formed_units rest
      else \<not> is_surrogate u \<and> well_formed_units (v # rest))"

definition isWellFormed :: "js_string \<Rightarrow> bool" where
  "isWellFormed str = well_formed_units (map unat str)"

text \<open>A string without its leading U+FEFF, if it has one.\<close>

fun dropBOM :: "js_string \<Rightarrow> js_string" where
  "dropBOM [] = []"
| "dropBOM (u # rest) = (if u = 0xFEFF then rest else u # rest)"

subsection \<open>Hexadecimal\<close>

definition hex_digit :: "nat \<Rightarrow> 16 word" where
  "hex_digit n = (if n < 10 then of_nat (48 + n) else of_nat (87 + n))"

text \<open>\<^verbatim>\<open>b.toString(16).padStart(2, '0')\<close> for each byte, joined.\<close>

definition arrayBufferToHex :: "bytes \<Rightarrow> js_string" where
  "arrayBufferToHex buffer =
     concat (map (\<lambda>b. [hex_digit (unat b div 16), hex_digit (unat b mod 16)]) buffer)"


subsection \<open>btoa and atob\<close>

text \<open>
  \<^verbatim>\<open>btoa\<close> is RFC 4648 base64 with padding and throws on a code unit above 255.
  \<^verbatim>\<open>atob\<close> is the forgiving decoder of the HTML standard: ASCII whitespace is dropped,
  one or two trailing \<open>=\<close> are removed when the length is a multiple of four, a length of
  one modulo four or a character outside the alphabet throws.
\<close>

definition base64_char :: "nat \<Rightarrow> nat" where
  "base64_char n =
     (if n < 26 then 65 + n
      else if n < 52 then 97 + (n - 26)
      else if n < 62 then 48 + (n - 52)
      else if n = 62 then 43
      else 47)"

definition base64_value :: "nat \<Rightarrow> nat option" where
  "base64_value u =
     (if 65 \<le> u \<and> u \<le> 90 then Some (u - 65)
      else if 97 \<le> u \<and> u \<le> 122 then Some (u - 97 + 26)
      else if 48 \<le> u \<and> u \<le> 57 then Some (u - 48 + 52)
      else if u = 43 then Some 62
      else if u = 47 then Some 63
      else None)"

fun base64_encode :: "nat list \<Rightarrow> nat list" where
  "base64_encode [] = []"
| "base64_encode [a] = [base64_char (a div 4), base64_char ((a mod 4) * 16), 61, 61]"
| "base64_encode [a, b] =
     [base64_char (a div 4), base64_char ((a mod 4) * 16 + b div 16),
      base64_char ((b mod 16) * 4), 61]"
| "base64_encode (a # b # c # rest) =
     [base64_char (a div 4), base64_char ((a mod 4) * 16 + b div 16),
      base64_char ((b mod 16) * 4 + c div 64), base64_char (c mod 64)] @ base64_encode rest"

text \<open>The sextets of a byte sequence, without the padding.\<close>

fun sextets :: "nat list \<Rightarrow> nat list" where
  "sextets [] = []"
| "sextets [a] = [a div 4, (a mod 4) * 16]"
| "sextets [a, b] = [a div 4, (a mod 4) * 16 + b div 16, (b mod 16) * 4]"
| "sextets (a # b # c # rest) =
     [a div 4, (a mod 4) * 16 + b div 16, (b mod 16) * 4 + c div 64, c mod 64] @ sextets rest"

definition btoa :: "js_string \<Rightarrow> error + js_string" where
  "btoa binary =
     (if list_ex (\<lambda>u. 255 < unat u) binary then Inl InvalidCharacterError
      else Inr (map of_nat (base64_encode (map unat binary))))"

definition is_ascii_whitespace :: "nat \<Rightarrow> bool" where
  "is_ascii_whitespace u = (u = 9 \<or> u = 10 \<or> u = 12 \<or> u = 13 \<or> u = 32)"

fun remove_padding :: "nat list \<Rightarrow> nat list" where
  "remove_padding [] = []"
| "remove_padding (x # xs) =
     (if x = 61 \<and> (xs = [] \<or> xs = [61]) then [] else x # remove_padding xs)"

fun base64_decode :: "nat list \<Rightarrow> nat list" where
  "base64_decode (s1 # s2 # s3 # s4 # rest) =
     [s1 * 4 + s2 div 16, (s2 mod 16) * 16 + s3 div 4, (s3 mod 4) * 64 + s4]
       @ base64_decode rest"
| "base64_decode [s1, s2, s3] = [s1 * 4 + s2 div 16, (s2 mod 16) * 16 + s3 div 4]"
| "base64_decode [s1, s2] = [s1 * 4 + s2 div 16]"
| "base64_decode [s1] = []"
| "base64_decode [] = []"

fun those_values :: "nat list \<Rightarrow> nat list option" where
  "those_values [] = Some []"
| "those_values (u # us) =
     (case base64_value u of None \<Rightarrow> None
      | Some v \<Rightarrow> (case those_values us of None \<Rightarrow> None | Some vs \<Rightarrow> Some (v # vs)))"

definition atob :: "js_string \<Rightarrow> error + js_string" where
  "atob data =
     (let d = filter (\<lambda>u. \<not> is_ascii_whitespace u) (map unat data);
          d = (if length d mod 4 = 0 then remove_padding d else d)
      in if length d mod 4 = 1 then Inl InvalidCharacterError
         else (case those_values d of
                 None \<Rightarrow> Inl InvalidCharacterError
               | Some values \<Rightarrow> Inr (map of_nat (base64_decode values))))"

text \<open>The two loops of the source: \<^verbatim>\<open>String.fromCharCode\<close> of every byte, then \<^verbatim>\<open>btoa\<close>;
  \<^verbatim>\<open>atob\<close>, then \<^verbatim>\<open>charCodeAt\<close> of every unit stored into a \<^verbatim>\<open>Uint8Array\<close> (which keeps
  the low eight bits).\<close>

definition arrayBufferToBase64 :: "bytes \<Rightarrow> error + js_string" where
  "arrayBufferToBase64 buffer = btoa (map ucast buffer)"

definition base64ToArrayBuffer :: "js_string \<Rightarrow> error + bytes" where
  "base64ToArrayBuffer base64 = await (atob base64) (\<lambda>binary. Inr (map ucast binary))"

subsection \<open>The host's cryptography\<close>

text \<open>
  What \<^verbatim>\<open>crypto.subtle\<close> computes rests on a few cores, which are parameters here: the two
  SHA-2 digests, the AES-CTR key stream and the GHASH tag of AES-GCM (both functions of the
  key and the IV), and the curve P-521 as a monoid \<open>'g\<close> of points with its generator and
  the x-coordinate of a finite point (\<open>None\<close> at the point at infinity). Reading a key from
  its JWK JSON text (\<^verbatim>\<open>JSON.parse\<close> and \<^verbatim>\<open>importKey('jwk', ...)\<close>) and
  \<^verbatim>\<open>String.prototype.toLowerCase\<close> are parameters too. Everything else is defined from them.
\<close>

record 'g host =
  SHA_256 :: "bytes \<Rightarrow> 256 word"
  SHA_512 :: "bytes \<Rightarrow> 512 word"
  aes_keystream :: "bytes \<Rightarrow> bytes \<Rightarrow> nat \<Rightarrow> 8 word"
  ghash_tag :: "bytes \<Rightarrow> bytes \<Rightarrow> bytes \<Rightarrow> 128 word"
  ec_generator :: 'g
  ec_x :: "'g \<Rightarrow> 528 word option"
  import_private_jwk :: "js_string \<Rightarrow> error + nat"
  import_public_jwk :: "js_string \<Rightarrow> error + 'g"
  toLowerCase :: "js_string \<Rightarrow> js_string"

text \<open>The \<open>n\<close> low bytes of a word, most significant first.\<close>

definition word_bytes :: "nat \<Rightarrow> 'a::len word \<Rightarrow> bytes" where
  "word_bytes n w = map (\<lambda>i. ucast (drop_bit (8 * (n - 1 - i)) w)) [0..<n]"

text \<open>\<^verbatim>\<open>crypto.getRandomValues\<close>: every call draws from a source of random bytes, which is
  an argument of the function that makes the call.\<close>

type_synonym random_source = "nat \<Rightarrow> 8 word"

definition getRandomBytes :: "nat \<Rightarrow> random_source \<Rightarrow> bytes" where
  "getRandomBytes n rnd = map rnd [0..<n]"

paragraph \<open>PBKDF2 with HMAC-SHA-512 (RFC 8018, RFC 2104)\<close>

definition xor_bytes :: "bytes \<Rightarrow> bytes \<Rightarrow> bytes" where
  "xor_bytes a b = map (\<lambda>(x, y). x XOR y) (zip a b)"

text \<open>The key of HMAC fills one block of the hash: a longer key is hashed first, a shorter
  one is padded with zero bytes.\<close>

definition hmac_key_block :: "(bytes \<Rightarrow> bytes) \<Rightarrow> nat \<Rightarrow> bytes \<Rightarrow> bytes" where
  "hmac_key_block h B key =
     (let k = (if B < length key then h key else key) in k @ replicate (B - length k) 0)"

definition HMAC :: "(bytes \<Rightarrow> bytes) \<Rightarrow> nat \<Rightarrow> bytes \<Rightarrow> bytes \<Rightarrow> bytes" where
  "HMAC h B key text =
     (let k = hmac_key_block h B key
      in h (map (\<lambda>b. b XOR 0x5C) k @ h (map (\<lambda>b. b XOR 0x36) k @ text)))"

definition HMAC_SHA512 :: "'g host \<Rightarrow> bytes \<Rightarrow> bytes \<Rightarrow> bytes" where
  "HMAC_SHA512 H = HMAC (\<lambda>m. word_bytes 64 (SHA_512 H m)) 128"

fun pbkdf2_iterate :: "(bytes \<Rightarrow> bytes) \<Rightarrow> nat \<Rightarrow> bytes \<Rightarrow> bytes \<Rightarrow> bytes" where
  "pbkdf2_iterate prf 0 u t = t"
| "pbkdf2_iterate prf (Suc n) u t = (let u' = prf u in pbkdf2_iterate prf n u' (xor_bytes t u'))"

definition pbkdf2_block :: "(bytes \<Rightarrow> bytes) \<Rightarrow> bytes \<Rightarrow> nat \<Rightarrow> nat \<Rightarrow> bytes" where
  "pbkdf2_block prf salt c i =
     (let u1 = prf (salt @ word_bytes 4 (of_nat i :: 32 word))
      in pbkdf2_iterate prf (c - 1) u1 u1)"

definition PBKDF2_HMAC_SHA512 :: "'g host \<Rightarrow> bytes \<Rightarrow> bytes \<Rightarrow> nat \<Rightarrow> nat \<Rightarrow> bytes" where
  "PBKDF2_HMAC_SHA512 H password salt c dkLen =
     take dkLen (concat (map (pbkdf2_block (HMAC_SHA512 H password) salt c)
       [1..<Suc ((dkLen + 63) div 64)]))"

text \<open>\<^verbatim>\<open>deriveBits\<close> of a PBKDF2 key: the length is in bits, and the operation is refused
  for a length that is zero or no multiple of 8 and for zero iterations.\<close>

definition deriveBits_PBKDF2 :: "'g host \<Rightarrow> bytes \<Rightarrow> bytes \<Rightarrow> nat \<Rightarrow> nat \<Rightarrow> error + bytes" where
  "deriveBits_PBKDF2 H keyMaterial salt iterations len =
     (if len = 0 \<or> len mod 8 \<noteq> 0 \<or> iterations = 0 then Inl OperationError
      else Inr (PBKDF2_HMAC_SHA512 H keyMaterial salt iterations (len div 8)))"

paragraph \<open>AES-GCM with a 128-bit tag (NIST SP 800-38D)\<close>

text \<open>An AES key object is its raw key bytes. The ciphertext is the plaintext XORed with
  the key stream, followed by the 16 bytes of the tag of that ciphertext. Decryption returns
  nothing unless the tag it recomputes is the one it was given. (The length limit of GCM,
  \<open>2^39 - 256\<close> bytes, is beyond any string or array of the engines and is left out.)\<close>

type_synonym CryptoKey = bytes

definition gctr :: "'g host \<Rightarrow> CryptoKey \<Rightarrow> bytes \<Rightarrow> bytes \<Rightarrow> bytes" where
  "gctr H key iv data =
     map (\<lambda>(i, x). x XOR aes_keystream H key iv i) (zip [0..<length data] data)"

definition gcm_tag :: "'g host \<Rightarrow> CryptoKey \<Rightarrow> bytes \<Rightarrow> bytes \<Rightarrow> bytes" where
  "gcm_tag H key iv c = word_bytes 16 (ghash_tag H key iv c)"

definition encrypt_AES_GCM :: "'g host \<Rightarrow> CryptoKey \<Rightarrow> bytes \<Rightarrow> bytes \<Rightarrow> bytes" where
  "encrypt_AES_GCM H key iv plaintext =
     (let c = gctr H key iv plaintext in c @ gcm_tag H key iv c)"

definition decrypt_AES_GCM :: "'g host \<Rightarrow> CryptoKey \<Rightarrow> bytes \<Rightarrow> bytes \<Rightarrow> error + bytes" where
  "decrypt_AES_GCM H key iv data =
     (if length data < 16 then Inl OperationError
      else (let c = take (length data - 16) data; t = drop (length data - 16) data
            in if t = gcm_tag H key iv c then Inr (gctr H key iv c) else Inl OperationError))"

paragraph \<open>ECDH on P-521\<close>

text \<open>Scalar multiplication in the point group; the shared secret is the x-coordinate of
  \<open>d \<cdot> Q\<close> as 66 bytes, of which \<^verbatim>\<open>deriveBits\<close> returns the first \<open>len\<close> bits.\<close>

fun ec_mult :: "nat \<Rightarrow> 'g::monoid_add \<Rightarrow> 'g" where
  "ec_mult 0 Q = 0"
| "ec_mult (Suc n) Q = Q + ec_mult n Q"

definition deriveBits_ECDH :: "'g::monoid_add host \<Rightarrow> 'g \<Rightarrow> nat \<Rightarrow> nat \<Rightarrow> error + bytes" where
  "deriveBits_ECDH H publicKey privateKey len =
     (case ec_x H (ec_mult privateKey publicKey) of
        None \<Rightarrow> Inl OperationError
      | Some x \<Rightarrow>
          (let secret = word_bytes 66 x
           in if length secret * 8 < len then Inl OperationError
              else Inr (take (len div 8) secret)))"


section \<open>The source\<close>

subsection \<open>Objects sent to the server\<close>

text \<open>What \<^verbatim>\<open>login\<close> and \<^verbatim>\<open>register\<close> send to the server.\<close>

record credentials =
  username :: js_string
  auth :: js_string

record registration = credentials +
  publicKey :: js_string
  publicKeyHash :: js_string
  privateKeyCipher :: js_string
  keySalt :: js_string

subsection \<open>Configuration constants\<close>

definition AES_KEY_LENGTH :: nat where "AES_KEY_LENGTH = 256"
definition PBKDF2_ITERATIONS_CLIENT :: nat where "PBKDF2_ITERATIONS_CLIENT = 25000"
definition IV_LENGTH :: nat where "IV_LENGTH = 12"

subsection \<open>Hashing and key derivation\<close>

text \<open>\<^verbatim>\<open>sha256(data)\<close>; every caller passes a string.\<close>

definition sha256 :: "'g host \<Rightarrow> js_string \<Rightarrow> js_string" where
  "sha256 H data =
     (let buffer = stringToArrayBuffer data;
          hashBuffer = word_bytes 32 (SHA_256 H buffer)
      in arrayBufferToHex hashBuffer)"

text \<open>\<^verbatim>\<open>pbkdf2(password, salt, iterations, keyLength)\<close>; importing raw bytes as PBKDF2 key
  material cannot fail.\<close>

definition pbkdf2 :: "'g host \<Rightarrow> js_string \<Rightarrow> js_string \<Rightarrow> nat \<Rightarrow> nat \<Rightarrow> error + js_string" where
  "pbkdf2 H password salt iterations keyLength =
     (let keyMaterial = stringToArrayBuffer password
      in await (deriveBits_PBKDF2 H keyMaterial (stringToArrayBuffer salt) iterations keyLength)
           (\<lambda>derivedBits. Inr (arrayBufferToHex derivedBits)))"

text \<open>\<^verbatim>\<open>deriveKey\<close> derives as many bits as the key needs and imports them as the key.\<close>

definition deriveAESKeyFromPassword :: "'g host \<Rightarrow> js_string \<Rightarrow> js_string \<Rightarrow> error + CryptoKey" where
  "deriveAESKeyFromPassword H password salt =
     (let keyMaterial = stringToArrayBuffer password
      in deriveBits_PBKDF2 H keyMaterial (stringToArrayBuffer salt)
           PBKDF2_ITERATIONS_CLIENT AES_KEY_LENGTH)"

subsection \<open>ECDH\<close>

definition importECDHPublicKey :: "'g host \<Rightarrow> js_string \<Rightarrow> error + 'g" where
  "importECDHPublicKey H publicKeyJson = import_public_jwk H publicKeyJson"

definition importECDHPrivateKey :: "'g host \<Rightarrow> js_string \<Rightarrow> error + nat" where
  "importECDHPrivateKey H privateKeyJson = import_private_jwk H privateKeyJson"

definition deriveSharedSecret ::
  "'g::monoid_add host \<Rightarrow> js_string \<Rightarrow> js_string \<Rightarrow> error + CryptoKey" where
  "deriveSharedSecret H privateKeyJson publicKeyJson =
     await (importECDHPrivateKey H privateKeyJson) (\<lambda>privateKey.
     await (importECDHPublicKey H publicKeyJson) (\<lambda>publicKey.
     deriveBits_ECDH H publicKey privateKey AES_KEY_LENGTH))"

text \<open>The result of \<^verbatim>\<open>generateECDHKeyPair\<close>: both keys as JWK JSON text.\<close>

record key_pair =
  publicKey :: js_string
  privateKey :: js_string

text \<open>A key pair is valid when both texts import and the public point is the private
  scalar times the generator.\<close>

definition valid_key_pair :: "'g::monoid_add host \<Rightarrow> key_pair \<Rightarrow> bool" where
  "valid_key_pair H kp =
     (case importECDHPrivateKey H (privateKey kp) of
        Inl e \<Rightarrow> False
      | Inr d \<Rightarrow>
          (case importECDHPublicKey H (publicKey kp) of
             Inl e \<Rightarrow> False
           | Inr Q \<Rightarrow> Q = ec_mult d (ec_generator H)))"

subsection \<open>AES-GCM encryption and decryption\<close>

definition aesEncrypt ::
  "'g host \<Rightarrow> js_string \<Rightarrow> CryptoKey \<Rightarrow> random_source \<Rightarrow> error + js_string" where
  "aesEncrypt H plaintext key rnd =
     (let iv = getRandomBytes IV_LENGTH rnd;
          plaintextBuffer = stringToArrayBuffer plaintext;
          ciphertext = encrypt_AES_GCM H key iv plaintextBuffer;
          combined = iv @ ciphertext
      in arrayBufferToBase64 combined)"

definition aesDecrypt :: "'g host \<Rightarrow> js_string \<Rightarrow> CryptoKey \<Rightarrow> error + js_string" where
  "aesDecrypt H ciphertextBase64 key =
     await (base64ToArrayBuffer ciphertextBase64) (\<lambda>combined.
       (let iv = take IV_LENGTH combined;
            ciphertext = drop IV_LENGTH combined
        in await (decrypt_AES_GCM H key iv ciphertext)
             (\<lambda>plaintextBuffer. Inr (arrayBufferToString plaintextBuffer))))"



subsection \<open>Private key storage\<close>

definition encryptPrivateKey ::
  "'g host \<Rightarrow> js_string \<Rightarrow> js_string \<Rightarrow> js_string \<Rightarrow> random_source \<Rightarrow> error + js_string" where
  "encryptPrivateKey H privateKeyJson passphrase salt rnd =
     await (deriveAESKeyFromPassword H passphrase salt)
       (\<lambda>key. aesEncrypt H privateKeyJson key rnd)"

definition decryptPrivateKey ::
  "'g host \<Rightarrow> js_string \<Rightarrow> js_string \<Rightarrow> js_string \<Rightarrow> error + js_string" where
  "decryptPrivateKey H encryptedPrivateKey passphrase salt =
     await (deriveAESKeyFromPassword H passphrase salt)
       (\<lambda>key. aesDecrypt H encryptedPrivateKey key)"

text \<open>What \<^verbatim>\<open>JSON.stringify\<close> returns for an object such as a JWK: well-formed text that
  starts with a brace.\<close>

definition serialized_jwk :: "js_string \<Rightarrow> bool" where
  "serialized_jwk s = (isWellFormed s \<and> take 1 s = lit ''{'')"

subsection \<open>Channel identifiers\<close>

text \<open>\<^verbatim>\<open>Array.prototype.sort\<close> without a comparator orders strings by their code units
  (the lexicographic order on lists of words); \<^verbatim>\<open>join\<close> puts the separator between the
  elements.\<close>

fun js_join :: "js_string \<Rightarrow> js_string list \<Rightarrow> js_string" where
  "js_join sep [] = []"
| "js_join sep [x] = x"
| "js_join sep (x # y # ys) = x @ sep @ js_join sep (y # ys)"

definition generateChannelId :: "'g host \<Rightarrow> js_string \<Rightarrow> js_string \<Rightarrow> js_string" where
  "generateChannelId H publicKeyHash1 publicKeyHash2 =
     (let sorted = sort [publicKeyHash1, publicKeyHash2];
          combined = js_join (lit '':'') sorted
      in sha256 H combined)"

text \<open>The specification's wording: the two hashes in lexicographic order, joined by a
  colon, hashed with SHA-256, in hexadecimal.\<close>

definition channelId_spec :: "'g host \<Rightarrow> js_string \<Rightarrow> js_string \<Rightarrow> js_string" where
  "channelId_spec H hashA hashB =
     arrayBufferToHex (word_bytes 32 (SHA_256 H
       (stringToArrayBuffer (min hashA hashB @ lit '':'' @ max hashA hashB))))"

subsection \<open>Messages\<close>

text \<open>A message object. \<open>receiverPublicKeyHash\<close> is \<open>None\<close> for \<^verbatim>\<open>null\<close>; the two flags
  are \<open>None\<close> while the object has no such property. Any further properties of an object
  (a stored message has an id and dates) are the record's extension.\<close>

record chat_message =
  senderName :: js_string
  message :: js_string
  timestamp :: js_string
  channel :: js_string
  senderPublicKeyHash :: js_string
  receiverPublicKeyHash :: "js_string option"
  messageType :: js_string
  decrypted :: "bool option"
  decryptionError :: "bool option"

definition encryptMessage ::
  "'g::monoid_add host \<Rightarrow> chat_message \<Rightarrow> js_string \<Rightarrow> js_string \<Rightarrow>
   random_source \<Rightarrow> random_source \<Rightarrow> random_source \<Rightarrow> error + chat_message" where
  "encryptMessage H messageData privateKeyJson receiverPublicKeyJson rnd1 rnd2 rnd3 =
     await (deriveSharedSecret H privateKeyJson receiverPublicKeyJson) (\<lambda>sharedKey.
     await (aesEncrypt H (senderName messageData) sharedKey rnd1) (\<lambda>senderName'.
     await (aesEncrypt H (message messageData) sharedKey rnd2) (\<lambda>message'.
     await (aesEncrypt H (timestamp messageData) sharedKey rnd3) (\<lambda>timestamp'.
     Inr \<lparr>senderName = senderName',
          message = message',
          timestamp = timestamp',
          channel = channel messageData,
          senderPublicKeyHash = senderPublicKeyHash messageData,
          receiverPublicKeyHash = receiverPublicKeyHash messageData,
          messageType = lit ''encrypted'',
          decrypted = None,
          decryptionError = None\<rparr>))))"

text \<open>The body of the \<^verbatim>\<open>try\<close> block of \<^verbatim>\<open>decryptMessage\<close>, and the function with its
  \<^verbatim>\<open>catch\<close>. The spread \<^verbatim>\<open>...encryptedMessage\<close> copies every property, the extension
  included.\<close>

definition decryptMessage_try ::
  "'g::monoid_add host \<Rightarrow> 'a chat_message_scheme \<Rightarrow> js_string \<Rightarrow> js_string \<Rightarrow>
   error + 'a chat_message_scheme" where
  "decryptMessage_try H encryptedMessage privateKeyJson senderPublicKeyJson =
     await (deriveSharedSecret H privateKeyJson senderPublicKeyJson) (\<lambda>sharedKey.
     await (aesDecrypt H (senderName encryptedMessage) sharedKey) (\<lambda>senderName'.
     await (aesDecrypt H (message encryptedMessage) sharedKey) (\<lambda>message'.
     await (aesDecrypt H (timestamp encryptedMessage) sharedKey) (\<lambda>timestamp'.
     Inr (encryptedMessage\<lparr>senderName := senderName',
            message := message',
            timestamp := timestamp',
            decrypted := Some True\<rparr>)))))"

definition decryptMessage ::
  "'g::monoid_add host \<Rightarrow> 'a chat_message_scheme \<Rightarrow> js_string \<Rightarrow> js_string \<Rightarrow>
   error + 'a chat_message_scheme" where
  "decryptMessage H encryptedMessage privateKeyJson senderPublicKeyJson =
     (case decryptMessage_try H encryptedMessage privateKeyJson senderPublicKeyJson of
        Inr result \<Rightarrow> Inr result
      | Inl error \<Rightarrow>
          Inr (encryptedMessage\<lparr>decrypted := Some False, decryptionError := Some True\<rparr>))"

subsection \<open>The auth store: register and login\<close>

text \<open>\<^verbatim>\<open>register\<close> up to its request. The key pair is the one \<^verbatim>\<open>generateECDHKeyPair\<close>
  returned; the two sources give the 16 bytes of the key salt and the IV.\<close>

definition register ::
  "'g host \<Rightarrow> js_string \<Rightarrow> js_string \<Rightarrow> key_pair \<Rightarrow> random_source \<Rightarrow> random_source \<Rightarrow>
   error + registration" where
  "register H username' password keyPair rnd_salt rnd_iv =
     await (pbkdf2 H password (toLowerCase H username') 25000 512) (\<lambda>clientAuth.
     (let publicKeyHash' = sha256 H (publicKey keyPair)
      in await (arrayBufferToBase64 (getRandomBytes 16 rnd_salt)) (\<lambda>keySalt'.
         await (pbkdf2 H (clientAuth @ password) keySalt' 25000 256) (\<lambda>passphrase.
         await (encryptPrivateKey H (privateKey keyPair) passphrase keySalt' rnd_iv)
           (\<lambda>privateKeyCipher'.
         Inr \<lparr>username = toLowerCase H username',
              auth = clientAuth,
              registration.publicKey = publicKey keyPair,
              publicKeyHash = publicKeyHash',
              privateKeyCipher = privateKeyCipher',
              keySalt = keySalt'\<rparr>)))))"

text \<open>\<^verbatim>\<open>login\<close> up to its request.\<close>

definition login :: "'g host \<Rightarrow> js_string \<Rightarrow> js_string \<Rightarrow> error + credentials" where
  "login H username' password =
     await (pbkdf2 H password (toLowerCase H username') 25000 512) (\<lambda>clientAuth.
     Inr \<lparr>username = toLowerCase H username', auth = clientAuth\<rparr>)"

text \<open>The specification's wording of the client auth value.\<close>

definition clientAuth_spec :: "'g host \<Rightarrow> js_string \<Rightarrow> js_string \<Rightarrow> js_string" where
  "clientAuth_spec H password username' =
     arrayBufferToHex (PBKDF2_HMAC_SHA512 H (stringToArrayBuffer password)
       (stringToArrayBuffer (toLowerCase H username')) 25000 (512 div 8))"

subsection \<open>The chat store: sendMessage\<close>

text \<open>A user object as the stores hold it; the public key may be missing. A missing or
  empty string is falsy.\<close>

record user =
  user_name :: js_string
  user_publicKey :: "js_string option"
  user_publicKeyHash :: js_string

text \<open>\<^verbatim>\<open>sendMessage\<close> up to the message data it hands to \<^verbatim>\<open>chatApi.sendMessage\<close>; \<open>Inl\<close>
  when the encryption throws and the function returns \<^verbatim>\<open>{success: false}\<close>. The arguments
  after the host are the two stores' state, the content and the time stamp.\<close>

definition sendMessage ::
  "'g::monoid_add host \<Rightarrow> js_string \<Rightarrow> user option \<Rightarrow> user \<Rightarrow> js_string \<Rightarrow> js_string \<Rightarrow>
   js_string \<Rightarrow> random_source \<Rightarrow> random_source \<Rightarrow> random_source \<Rightarrow> error + chat_message" where
  "sendMessage H currentChannel currentChatmate usr privateKey' content timestamp'
     rnd1 rnd2 rnd3 =
     (let messageData =
            \<lparr>senderName = user_name usr,
             message = content,
             timestamp = timestamp',
             channel = currentChannel,
             senderPublicKeyHash = user_publicKeyHash usr,
             receiverPublicKeyHash =
               (case currentChatmate of
                  None \<Rightarrow> None
                | Some mate \<Rightarrow>
                    (if user_publicKeyHash mate \<noteq> [] then Some (user_publicKeyHash mate)
                     else None)),
             messageType = lit ''text'',
             decrypted = None,
             decryptionError = None\<rparr>
      in case currentChatmate of
           None \<Rightarrow> Inr messageData
         | Some mate \<Rightarrow>
             (case user_publicKey mate of
                None \<Rightarrow> Inr messageData
              | Some pk \<Rightarrow>
                  (if currentChannel \<noteq> lit ''global'' \<and> pk \<noteq> []
                   then encryptMessage H messageData privateKey' pk rnd1 rnd2 rnd3
                   else Inr messageData)))"


section \<open>A stand-in host\<close>

text \<open>A deterministic host on the additive monoid of the natural numbers, for running the
  functions at concrete inputs: a key text of length \<open>d\<close> stands for the scalar \<open>d\<close> and for
  the point \<open>d\<close>.\<close>

definition test_host :: "nat host" where
  "test_host =
     \<lparr>SHA_256 = (\<lambda>m. of_nat (sum_list (map unat m))),
      SHA_512 = (\<lambda>m. of_nat (sum_list (map unat m))),
      aes_keystream = (\<lambda>key iv i. of_nat (length key + i)),
      ghash_tag = (\<lambda>key iv c. of_nat (sum_list (map unat (key @ iv @ c)))),
      ec_generator = 1,
      ec_x = (\<lambda>Q. if Q = 0 then None else Some (of_nat Q)),
      import_private_jwk = (\<lambda>s. if s = [] then Inl DataError else Inr (length s)),
      import_public_jwk = (\<lambda>s. if s = [] then Inl DataError else Inr (length s)),
      toLowerCase = map (\<lambda>u. if 65 \<le> u \<and> u \<le> 90 then u + 32 else u)\<rparr>"

text \<open>A message in the clear.\<close>

definition sample_message :: chat_message where
  "sample_message =
     \<lparr>senderName = lit ''alice'', message = lit ''hi'', timestamp = lit ''t0'',
      channel = lit ''c1'', senderPublicKeyHash = lit ''h1'',
      receiverPublicKeyHash = Some (lit ''h2''), messageType = lit ''text'',
      decrypted = None, decryptionError = None\<rparr>"

text \<open>What \<^verbatim>\<open>aesEncrypt\<close> returns, but with the first byte of the tag changed: a blob that
  was tampered with on its way.\<close>

definition aesEncrypt_changed_tag ::
  "'g host \<Rightarrow> js_string \<Rightarrow> CryptoKey \<Rightarrow> random_source \<Rightarrow> error + js_string" where
  "aesEncrypt_changed_tag H plaintext key rnd =
     (let iv = getRandomBytes IV_LENGTH rnd;
          c = gctr H key iv (stringToArrayBuffer plaintext);
          t = gcm_tag H key iv c
      in arrayBufferToBase64 (iv @ c @ t[0 := t ! 0 + 1]))"

section \<open>Encodings\<close>

subsection \<open>UTF-8 decoding inverts encoding\<close>

lemma lead_mods:
  "a < 32 \<Longrightarrow> (192 + a) mod 32 = (a::nat)"
  "a < 16 \<Longrightarrow> (224 + a) mod 16 = (a::nat)"
  "a < 8 \<Longrightarrow> (240 + a) mod 8 = (a::nat)"
  "a < 64 \<Longrightarrow> (128 + a) mod 64 = (a::nat)"
  using mod_mult_self4 [of 32 6 a] mod_mult_self4 [of 16 14 a]
    mod_mult_self4 [of 8 30 a] mod_mult_self4 [of 64 2 a]
  by simp_all

text \<open>One step of the decoder on each kind of byte.\<close>

lemma decoder_ascii:
  "b < 128 \<Longrightarrow> utf8_decoder cp 0 lo hi (b # bs) = b # utf8_decoder 0 0 0x80 0xBF bs"
  by simp

lemma decoder_lead2:
  "2 \<le> a \<Longrightarrow> a < 32 \<Longrightarrow>
   utf8_decoder cp 0 lo hi ((192 + a) # bs) = utf8_decoder a 1 0x80 0xBF bs"
  by (simp add: lead_mods)

lemma decoder_lead3:
  "a < 16 \<Longrightarrow>
   utf8_decoder cp 0 lo hi ((224 + a) # bs) =
     utf8_decoder a 2 (if a = 0 then 0xA0 else 0x80) (if a = 13 then 0x9F else 0xBF) bs"
  by (simp add: lead_mods)

lemma decoder_lead4:
  "a < 5 \<Longrightarrow>
   utf8_decoder cp 0 lo hi ((240 + a) # bs) =
     utf8_decoder a 3 (if a = 0 then 0x90 else 0x80) (if a = 4 then 0x8F else 0xBF) bs"
  by (simp add: lead_mods)

lemma decoder_cont:
  "1 < needed \<Longrightarrow> b < 64 \<Longrightarrow> lo \<le> 128 + b \<Longrightarrow> 128 + b \<le> hi \<Longrightarrow>
   utf8_decoder cp needed lo hi ((128 + b) # bs) =
     utf8_decoder (cp * 64 + b) (needed - 1) 0x80 0xBF bs"
  by (simp add: lead_mods)

lemma decoder_last:
  "b < 64 \<Longrightarrow> lo \<le> 128 + b \<Longrightarrow> 128 + b \<le> hi \<Longrightarrow>
   utf8_decoder cp 1 lo hi ((128 + b) # bs) = (cp * 64 + b) # utf8_decoder 0 0 0x80 0xBF bs"
  by (simp add: lead_mods)

declare utf8_decoder.simps [simp del]

text \<open>A code point is the sum of its six-bit groups.\<close>

lemma split3: "((c div 4096) * 64 + (c div 64) mod 64) * 64 + c mod 64 = (c::nat)"
proof -
  have "c div 4096 = c div 64 div 64" by (simp add: div_mult2_eq)
  then show ?thesis by simp
qed

lemma split4: "(((c div 262144) * 64 + (c div 4096) mod 64) * 64 + (c div 64) mod 64) * 64 + c mod 64 = (c::nat)"
proof -
  have "c div 4096 = c div 64 div 64" by (simp add: div_mult2_eq)
  moreover have "c div 262144 = c div 64 div 64 div 64" by (simp add: div_mult2_eq)
  ultimately show ?thesis by simp
qed

text \<open>The decoder reads the encoding of one scalar value back, whatever follows.\<close>

lemma scalar_ok: "utf8_decoder 0 0 0x80 0xBF (utf8_encode_scalar c @ rest) = c # utf8_decoder 0 0 0x80 0xBF rest"
  if "c < 0x110000" "\<not> is_surrogate c"
proof -
  consider "c < 0x80" | "0x80 \<le> c" "c < 0x800" | "0x800 \<le> c" "c < 0x10000" | "0x10000 \<le> c" by linarith
  then show ?thesis
  proof cases
    case 1 then show ?thesis by (simp add: utf8_encode_scalar_def decoder_ascii)
  next
    case 2
    define a where "a = c div 64"
    define d where "d = c mod 64"
    have c: "a * 64 + d = c" unfolding a_def d_def by simp
    have bounds: "a < 32" "2 \<le> a" "d < 64" using 2 unfolding a_def d_def by simp_all
    have enc: "utf8_encode_scalar c = [0xC0 + a, 0x80 + d]"
      using 2 unfolding utf8_encode_scalar_def a_def d_def by simp
    have "utf8_decoder 0 0 0x80 0xBF ([0xC0 + a, 0x80 + d] @ rest) =
          utf8_decoder a 1 0x80 0xBF ((0x80 + d) # rest)"
      using bounds by (simp add: decoder_lead2)
    also have "\<dots> = c # utf8_decoder 0 0 0x80 0xBF rest"
      using bounds c by (subst decoder_last) simp_all
    finally show ?thesis unfolding enc .
  next
    case 3 
    define a where "a = c div 4096"
    define b where "b = (c div 64) mod 64"
    define d where "d = c mod 64"
    have c: "(a * 64 + b) * 64 + d = c" unfolding a_def b_def d_def by (rule split3)
    have bounds: "a < 16" "b < 64" "d < 64" using 3 unfolding a_def b_def d_def by simp_all
    have a0: "32 \<le> b" if "a = 0" using 3 c bounds that by (simp add: add_mult_distrib)
    have a13: "b < 32" if "a = 13" using \<open>\<not> is_surrogate c\<close> c bounds that unfolding is_surrogate_def by (simp add: add_mult_distrib)
    have enc: "utf8_encode_scalar c = [0xE0 + a, 0x80 + b, 0x80 + d]"
      using 3 unfolding utf8_encode_scalar_def a_def b_def d_def by simp
    have "utf8_decoder 0 0 0x80 0xBF ([0xE0 + a, 0x80 + b, 0x80 + d] @ rest) =
          utf8_decoder a 2 (if a = 0 then 0xA0 else 0x80) (if a = 13 then 0x9F else 0xBF) ((0x80 + b) # (0x80 + d) # rest)"
      using bounds by (simp add: decoder_lead3)
    also have "\<dots> = utf8_decoder (a * 64 + b) 1 0x80 0xBF ((0x80 + d) # rest)"
      using bounds a0 a13 by (subst decoder_cont) auto
    also have "\<dots> = c # utf8_decoder 0 0 0x80 0xBF rest"
      using bounds c by (subst decoder_last) simp_all
    finally show ?thesis unfolding enc .
  next
    case 4
    define a where "a = c div 262144"
    define b where "b = (c div 4096) mod 64"
    define e where "e = (c div 64) mod 64"
    define d where "d = c mod 64"
    have c: "((a * 64 + b) * 64 + e) * 64 + d = c" unfolding a_def b_def d_def e_def by (rule split4)
    have bounds: "a < 5" "b < 64" "e < 64" "d < 64" using 4 that(1) unfolding a_def b_def d_def e_def by simp_all
    have a0: "16 \<le> b" if "a = 0" using 4 c bounds that by (simp add: add_mult_distrib)
    have a4: "b < 16" if "a = 4" using \<open>c < 0x110000\<close> c bounds that by (simp add: add_mult_distrib)
    have enc: "utf8_encode_scalar c = [0xF0 + a, 0x80 + b, 0x80 + e, 0x80 + d]"
      using 4 unfolding utf8_encode_scalar_def a_def b_def d_def e_def by simp
    have "utf8_decoder 0 0 0x80 0xBF ([0xF0 + a, 0x80 + b, 0x80 + e, 0x80 + d] @ rest) =
          utf8_decoder a 3 (if a = 0 then 0x90 else 0x80) (if a = 4 then 0x8F else 0xBF) ((0x80 + b) # (0x80 + e) # (0x80 + d) # rest)"
      using bounds by (simp add: decoder_lead4)
    also have "\<dots> = utf8_decoder (a * 64 + b) 2 0x80 0xBF ((0x80 + e) # (0x80 + d) # rest)"
      using bounds a0 a4 by (subst decoder_cont) auto
    also have "\<dots> = utf8_decoder ((a * 64 + b) * 64 + e) 1 0x80 0xBF ((0x80 + d) # rest)"
      using bounds by (subst decoder_cont) simp_all
    also have "\<dots> = c # utf8_decoder 0 0 0x80 0xBF rest"
      using bounds c by (subst decoder_last) simp_all
    finally show ?thesis unfolding enc .
  qed
qed



text \<open>So it reads the encoding of a sequence of scalar values back.\<close>

lemma decode_encode: "\<forall>c \<in> set cs. scalar c \<Longrightarrow> utf8_decode (utf8_encode cs) = cs"
  unfolding utf8_decode_def utf8_encode_def
  by (induction cs) (simp_all add: utf8_decoder.simps(1) scalar_ok scalar_def)

lemma scalar_values_scalar:
  "\<forall>u \<in> set us. u < 0x10000 \<Longrightarrow> \<forall>c \<in> set (scalar_values us). scalar c"
proof (induction us rule: scalar_values.induct)
  case 1 show ?case by simp
next
  case (2 u) then show ?case by (auto simp: scalar_def is_surrogate_def)
next
  case (3 u v rest)
  have "0x10000 + (u - 0xD800) * 0x400 + (v - 0xDC00) < 0x110000 \<and> \<not> is_surrogate (0x10000 + (u - 0xD800) * 0x400 + (v - 0xDC00))"
    if "is_high_surrogate u" "is_low_surrogate v"
    using that unfolding is_high_surrogate_def is_low_surrogate_def is_surrogate_def by auto
  with 3 show ?case by (auto simp: scalar_def is_surrogate_def)
qed

lemma encode_scalar_bytes: "c < 0x110000 \<Longrightarrow> \<forall>b \<in> set (utf8_encode_scalar c). b < 256"
  unfolding utf8_encode_scalar_def
  by (auto simp: less_Suc_eq_le intro!: )



lemma utf8_encode_bytes:
  "\<forall>c \<in> set cs. scalar c \<Longrightarrow> \<forall>b \<in> set (utf8_encode cs). b < 256"
  unfolding utf8_encode_def using encode_scalar_bytes by (auto simp: scalar_def)

lemma unat_of_nat_bytes:
  "\<forall>b \<in> set bs. b < 256 \<Longrightarrow> map unat (map of_nat bs :: 8 word list) = bs"
  by (induction bs) (simp_all add: unat_of_nat)

lemma units_lt: "\<forall>u \<in> set (map unat (str :: 16 word list)). u < 0x10000"
proof -
  have "unat (w :: 16 word) < 0x10000" for w using unsigned_less [of w, where 'a = nat] by simp
  then show ?thesis by simp
qed

lemma of_nat_unat_units: "map of_nat (map unat str) = (str :: 16 word list)"
  by (induction str) simp_all

lemma of_nat_unat_units': "map (of_nat \<circ> unat) str = (str :: 16 word list)"
  by (induction str) simp_all

lemma decode_encode_string:
  "arrayBufferToString (stringToArrayBuffer str) =
     map of_nat (utf16_encode (strip_bom (scalar_values (map unat str))))"
proof -
  have sc: "\<forall>c \<in> set (scalar_values (map unat str)). scalar c"
    using scalar_values_scalar [OF units_lt] .
  show ?thesis
    unfolding arrayBufferToString_def stringToArrayBuffer_def
    by (simp only: unat_of_nat_bytes [OF utf8_encode_bytes [OF sc]] decode_encode [OF sc])
qed

text \<open>A well-formed string is the UTF-16 form of its scalar values.\<close>

lemma utf16_scalar_values:
  "well_formed_units us \<Longrightarrow> \<forall>u \<in> set us. u < 0x10000 \<Longrightarrow> utf16_encode (scalar_values us) = us"
proof (induction us rule: scalar_values.induct)
  case 1 show ?case by (simp add: utf16_encode_def)
next
  case (2 u) then show ?case by (simp add: utf16_encode_def utf16_encode_scalar_def)
next
  case (3 u v rest)
  show ?case
  proof (cases "is_high_surrogate u \<and> is_low_surrogate v")
    case True
    then have u: "0xD800 \<le> u" "u \<le> 0xDBFF" and v: "0xDC00 \<le> v" "v \<le> 0xDFFF"
      unfolding is_high_surrogate_def is_low_surrogate_def by simp_all
    define x where "x = u - 0xD800"
    define y where "y = v - 0xDC00"
    have xy: "u = 0xD800 + x" "v = 0xDC00 + y" "y < 0x400" using u v unfolding x_def y_def by simp_all
    have "utf16_encode_scalar (0x10000 + x * 0x400 + y) = [u, v]"
      unfolding utf16_encode_scalar_def using xy by simp
    moreover have "utf16_encode (scalar_values rest) = rest" using 3 True by simp
    ultimately show ?thesis using True unfolding x_def y_def by (simp add: utf16_encode_def)
  next
    case False
    then have sv: "scalar_values (u # v # rest) = (if is_surrogate u then 0xFFFD else u) # scalar_values (v # rest)"
      by auto
    from False have "utf16_encode (scalar_values (v # rest)) = v # rest" "\<not> is_surrogate u" "u < 0x10000"
      using 3 by auto
    then show ?thesis unfolding sv by (simp add: utf16_encode_def utf16_encode_scalar_def)
  qed
qed

lemma strip_bom_scalar_values:
  "well_formed_units us \<Longrightarrow> \<forall>u \<in> set us. u < 0x10000 \<Longrightarrow>
   utf16_encode (strip_bom (scalar_values us)) = strip_bom us"
proof (cases us)
  case Nil then show ?thesis by (simp add: utf16_encode_def)
next
  case (Cons u rest)
  assume wf: "well_formed_units us" and lt: "\<forall>u \<in> set us. u < 0x10000"
  show ?thesis
  proof (cases "u = 0xFEFF")
    case True
    have "scalar_values us = u # scalar_values rest" "well_formed_units rest"
      using wf True Cons by (cases rest; simp add: is_high_surrogate_def is_surrogate_def)+
    then show ?thesis using True Cons lt utf16_scalar_values [of rest] by simp
  next
    case False
    have "hd (scalar_values us) \<noteq> 0xFEFF \<and> scalar_values us \<noteq> []"
      using False Cons lt by (cases rest) (auto simp: is_high_surrogate_def is_low_surrogate_def)
    then have "strip_bom (scalar_values us) = scalar_values us"
      by (cases "scalar_values us") auto
    then show ?thesis using utf16_scalar_values [OF wf lt] False Cons by simp
  qed
qed

lemma strip_bom_units: "map of_nat (strip_bom (map unat str)) = dropBOM (str :: 16 word list)"
proof (cases str)
  case Nil then show ?thesis by simp
next
  case (Cons u rest)
  have "(unat u = 0xFEFF) = (u = 0xFEFF)" by (simp add: word_unat_eq_iff)
  then show ?thesis using Cons by (simp add: of_nat_unat_units')
qed

text \<open>Decoding what \<^verbatim>\<open>TextEncoder\<close> wrote gives the string back, without a leading
  U+FEFF.\<close>

lemma TextDecoder_TextEncoder:
  "isWellFormed str \<Longrightarrow> arrayBufferToString (stringToArrayBuffer str) = dropBOM str"
  unfolding decode_encode_string isWellFormed_def
  using strip_bom_scalar_values [OF _ units_lt, of str] strip_bom_units by simp



subsection \<open>atob inverts btoa\<close>

lemma base64_value_char: "n < 64 \<Longrightarrow> base64_value (base64_char n) = Some n"
  unfolding base64_value_def base64_char_def by auto

lemma base64_char_plain: "n < 64 \<Longrightarrow> base64_char n \<noteq> 61 \<and> \<not> is_ascii_whitespace (base64_char n) \<and> base64_char n < 256"
  unfolding base64_char_def is_ascii_whitespace_def by auto

lemma sextet_bounds:
  "a < 256 \<Longrightarrow> a div 4 < (64::nat)"
  "b < 256 \<Longrightarrow> (a mod 4) * 16 + b div 16 < (64::nat)"
  "c < 256 \<Longrightarrow> (b mod 16) * 4 + c div 64 < (64::nat)"
  "c mod 64 < (64::nat)"
  "(a mod 4) * 16 < (64::nat)"
  "(b mod 16) * 4 < (64::nat)"
proof -
  have m: "a mod 4 < 4" "b mod 16 < 16" by simp_all
  show "a < 256 \<Longrightarrow> a div 4 < (64::nat)" by simp
  show "b < 256 \<Longrightarrow> (a mod 4) * 16 + b div 16 < (64::nat)"
  proof -
    assume "b < 256"
    then have "b div 16 < 16" by (simp add: div_less_iff_less_mult)
    with m show ?thesis by linarith
  qed
  show "c < 256 \<Longrightarrow> (b mod 16) * 4 + c div 64 < (64::nat)"
  proof -
    assume "c < 256"
    then have "c div 64 < 4" by (simp add: div_less_iff_less_mult)
    with m show ?thesis by linarith
  qed
  show "c mod 64 < (64::nat)" by simp
  show "(a mod 4) * 16 < (64::nat)" using m by linarith
  show "(b mod 16) * 4 < (64::nat)" using m by linarith
qed

lemma base64_char_simps:
  "n < 64 \<Longrightarrow> base64_char n \<noteq> 61"
  "n < 64 \<Longrightarrow> \<not> is_ascii_whitespace (base64_char n)"
  "n < 64 \<Longrightarrow> base64_char n < 256"
  "\<not> is_ascii_whitespace 61"
  using base64_char_plain by (simp_all add: is_ascii_whitespace_def)

lemma sextets_lt: "list_all (\<lambda>b. b < 256) bs \<Longrightarrow> list_all (\<lambda>s. s < 64) (sextets bs)"
  by (induction bs rule: sextets.induct) (simp_all add: sextet_bounds)

lemma filter_encode:
  "list_all (\<lambda>b. b < 256) bs \<Longrightarrow>
   filter (\<lambda>u. \<not> is_ascii_whitespace u) (base64_encode bs) = base64_encode bs"
  by (induction bs rule: base64_encode.induct)
     (simp_all add: sextet_bounds base64_char_simps)

lemma length_encode: "length (base64_encode bs) mod 4 = 0"
  by (induction bs rule: base64_encode.induct) simp_all

lemma remove_padding_encode:
  "list_all (\<lambda>b. b < 256) bs \<Longrightarrow>
   remove_padding (base64_encode bs) = map base64_char (sextets bs)"
  by (induction bs rule: base64_encode.induct) (simp_all add: sextet_bounds base64_char_simps)

lemma length_sextets: "length (sextets bs) mod 4 \<noteq> 1"
  by (induction bs rule: sextets.induct) simp_all

lemma those_values_chars:
  "list_all (\<lambda>s. s < 64) ss \<Longrightarrow> those_values (map base64_char ss) = Some ss"
  by (induction ss) (simp_all add: base64_value_char)

lemma decode_sextets: "list_all (\<lambda>b. b < 256) bs \<Longrightarrow> base64_decode (sextets bs) = bs"
proof (induction bs rule: sextets.induct)
  case 1 show ?case by simp
next
  case (2 a) show ?case by simp
next
  case (3 a b)
  then have b: "b div 16 < 16" by (simp add: div_less_iff_less_mult)
  have "((b mod 16) * 4) div 4 = b mod 16" by simp
  with b show ?case by simp
next
  case (4 a b c rest)
  then have b: "b div 16 < 16" and c: "c div 64 < 4" by (simp_all add: div_less_iff_less_mult)
  have "((b mod 16) * 4 + c div 64) div 4 = b mod 16" "((b mod 16) * 4 + c div 64) mod 4 = c div 64"
    using c by simp_all
  with 4 b show ?case by simp
qed

lemma encode_chars_lt: "list_all (\<lambda>b. b < 256) bs \<Longrightarrow> list_all (\<lambda>u. u < 256) (base64_encode bs)"
  by (induction bs rule: base64_encode.induct) (simp_all add: sextet_bounds base64_char_simps)

lemma unat_of_nat_units:
  "list_all (\<lambda>u. u < 256) us \<Longrightarrow> map unat (map of_nat us :: 16 word list) = us"
  by (induction us) (simp_all add: unat_of_nat)

text \<open>No whitespace to drop, the padding removed, every character in the alphabet, and
  the sextets give the bytes back.\<close>

lemma atob_btoa_units:
  assumes "list_all (\<lambda>b. b < 256) bs"
  shows "atob (map of_nat (base64_encode bs)) = Inr (map of_nat bs)"
proof -
  have u: "map unat (map of_nat (base64_encode bs) :: 16 word list) = base64_encode bs"
    using unat_of_nat_units [OF encode_chars_lt [OF assms]] .
  have len: "length (map base64_char (sextets bs)) mod 4 \<noteq> 1"
    using length_sextets [of bs] by simp
  show ?thesis
    unfolding atob_def u filter_encode [OF assms] Let_def
    using len
    by (simp add: length_encode remove_padding_encode [OF assms]
        those_values_chars [OF sextets_lt [OF assms]] decode_sextets [OF assms])
qed

lemma bytes_lt: "list_all (\<lambda>b. b < 256) (map unat (buffer :: 8 word list))"
proof -
  have "unat (w :: 8 word) < 256" for w using unsigned_less [of w, where 'a = nat] by simp
  then show ?thesis by (simp add: list_all_iff)
qed

lemma unat_ucast_byte: "unat (ucast (b :: 8 word) :: 16 word) = unat b"
proof -
  have "unat b < 2 ^ 8" using unsigned_less [of b, where 'a = nat] by simp
  then have "unat b < 2 ^ 16" by simp
  then show ?thesis by (simp add: unsigned_ucast_eq take_bit_nat_eq_self)
qed

lemma arrayBufferToBase64_total:
  "arrayBufferToBase64 buffer = Inr (map of_nat (base64_encode (map unat buffer)))"
proof -
  have m: "map unat (map ucast buffer :: 16 word list) = map unat buffer"
    by (induction buffer) (simp_all add: unat_ucast_byte)
  have "unat b \<le> 255" for b :: "8 word"
    using unsigned_less [of b, where 'a = nat] by simp
  then have ex: "\<not> list_ex (\<lambda>u. 255 < unat u) (map ucast buffer :: 16 word list)"
    by (simp add: list_ex_iff unat_ucast_byte not_less)
  show ?thesis unfolding arrayBufferToBase64_def btoa_def by (simp only: m ex if_False)
qed

lemma ucast_of_nat_unat: "map ucast (map of_nat (map unat buffer) :: 16 word list) = (buffer :: 8 word list)"
  by (induction buffer) (simp_all add: ucast_up_ucast_id is_up)

lemma base64_roundtrip:
  "await (arrayBufferToBase64 buffer) base64ToArrayBuffer = Inr buffer"
proof -
  have "atob (map of_nat (base64_encode (map unat buffer))) = Inr (map of_nat (map unat buffer))"
    using atob_btoa_units [OF bytes_lt] .
  then have "base64ToArrayBuffer (map of_nat (base64_encode (map unat buffer))) = Inr buffer"
    unfolding base64ToArrayBuffer_def await_def by (simp only: sum.case ucast_of_nat_unat)
  then show ?thesis unfolding arrayBufferToBase64_total await_def by (simp only: sum.case)
qed

section \<open>Sealing and opening\<close>

lemma await_Inr [simp]: "await (Inr v) k = k v"
  by (simp add: await_def)

lemma await_Inl [simp]: "await (Inl e) k = Inl e"
  by (simp add: await_def)

lemma length_word_bytes [simp]: "length (word_bytes n w) = n"
  by (simp add: word_bytes_def)

lemma length_gctr [simp]: "length (gctr H key iv data) = length data"
  by (simp add: gctr_def)

lemma length_gcm_tag [simp]: "length (gcm_tag H key iv c) = 16"
  by (simp add: gcm_tag_def)

lemma length_getRandomBytes [simp]: "length (getRandomBytes n rnd) = n"
  by (simp add: getRandomBytes_def)

text \<open>XORing with the same key stream twice gives the data back.\<close>

lemma gctr_involution: "gctr H key iv (gctr H key iv data) = data"
proof (rule nth_equalityI)
  show "length (gctr H key iv (gctr H key iv data)) = length data" by simp
next
  fix i assume "i < length (gctr H key iv (gctr H key iv data))"
  then have i: "i < length data" by simp
  then have "gctr H key iv data ! i = data ! i XOR aes_keystream H key iv i"
    by (simp add: gctr_def)
  with i show "gctr H key iv (gctr H key iv data) ! i = data ! i"
    by (simp add: gctr_def[of H key iv "gctr H key iv data"] xor.assoc)
qed

lemma decrypt_encrypt_AES_GCM:
  "decrypt_AES_GCM H key iv (encrypt_AES_GCM H key iv plaintext) = Inr plaintext"
  by (simp add: decrypt_AES_GCM_def encrypt_AES_GCM_def Let_def gctr_involution)



lemma aesEncrypt_total:
  "aesEncrypt H plaintext key rnd =
     arrayBufferToBase64 (getRandomBytes IV_LENGTH rnd @
       encrypt_AES_GCM H key (getRandomBytes IV_LENGTH rnd) (stringToArrayBuffer plaintext))"
  by (simp add: aesEncrypt_def Let_def)

text \<open>\<^verbatim>\<open>aesDecrypt\<close> of the base64 text of an IV followed by data: the split at 12 bytes
  finds the IV again.\<close>

lemma aesDecrypt_sealed:
  assumes "arrayBufferToBase64 (iv @ data) = Inr blob" "length iv = IV_LENGTH"
  shows "aesDecrypt H blob key =
     await (decrypt_AES_GCM H key iv data) (\<lambda>p. Inr (arrayBufferToString p))"
proof -
  have "base64ToArrayBuffer blob = Inr (iv @ data)"
    using base64_roundtrip [of "iv @ data"] assms(1) by simp
  then show ?thesis using assms(2) by (simp add: aesDecrypt_def Let_def)
qed

lemma aes_roundtrip:
  "\<exists>blob. aesEncrypt H plaintext key rnd = Inr blob
     \<and> aesDecrypt H blob key = Inr (arrayBufferToString (stringToArrayBuffer plaintext))"
proof -
  let ?iv = "getRandomBytes IV_LENGTH rnd"
  let ?ct = "encrypt_AES_GCM H key ?iv (stringToArrayBuffer plaintext)"
  obtain blob where blob: "arrayBufferToBase64 (?iv @ ?ct) = Inr blob"
    using arrayBufferToBase64_total by blast
  have "aesDecrypt H blob key = Inr (arrayBufferToString (stringToArrayBuffer plaintext))"
    using aesDecrypt_sealed [OF blob, of H key] by (simp add: decrypt_encrypt_AES_GCM)
  with blob show ?thesis by (auto simp: aesEncrypt_total)
qed

lemma open_sealed_field:
  assumes "isWellFormed s"
  shows "\<exists>blob. aesEncrypt H s key rnd = Inr blob \<and> aesDecrypt H blob key = Inr (dropBOM s)"
  using aes_roundtrip [of H s key rnd] TextDecoder_TextEncoder [OF assms] by simp

lemma dropBOM_id: "take 1 s \<noteq> [0xFEFF] \<Longrightarrow> dropBOM s = s"
  by (cases s) auto

lemma aesDecrypt_changed_tag:
  assumes "aesEncrypt_changed_tag H plaintext key rnd = Inr blob'"
  shows "aesDecrypt H blob' key = Inl OperationError"
proof -
  let ?iv = "getRandomBytes IV_LENGTH rnd"
  let ?c = "gctr H key ?iv (stringToArrayBuffer plaintext)"
  let ?t = "gcm_tag H key ?iv ?c"
  have t: "length ?t = 16" by simp
  have "?t[0 := ?t ! 0 + 1] \<noteq> ?t"
  proof
    assume "?t[0 := ?t ! 0 + 1] = ?t"
    then have "?t[0 := ?t ! 0 + 1] ! 0 = ?t ! 0" by simp
    then show False using t by simp
  qed
  then have "decrypt_AES_GCM H key ?iv (?c @ ?t[0 := ?t ! 0 + 1]) = Inl OperationError"
    by (simp add: decrypt_AES_GCM_def Let_def)
  moreover have "arrayBufferToBase64 (?iv @ ?c @ ?t[0 := ?t ! 0 + 1]) = Inr blob'"
    using assms by (simp add: aesEncrypt_changed_tag_def Let_def)
  ultimately show ?thesis using aesDecrypt_sealed [of ?iv _ blob' H key] by simp
qed

lemma aesEncrypt_changed_tag_total: "\<exists>blob'. aesEncrypt_changed_tag H plaintext key rnd = Inr blob'"
  using arrayBufferToBase64_total by (simp add: aesEncrypt_changed_tag_def Let_def)

lemma aesEncrypt_returns: "\<exists>blob. aesEncrypt H plaintext key rnd = Inr blob"
  using aes_roundtrip by blast



section \<open>Key derivation\<close>

lemma deriveAESKeyFromPassword_total:
  "deriveAESKeyFromPassword H password salt =
     Inr (PBKDF2_HMAC_SHA512 H (stringToArrayBuffer password) (stringToArrayBuffer salt) 25000 32)"
  by (simp add: deriveAESKeyFromPassword_def deriveBits_PBKDF2_def Let_def
      PBKDF2_ITERATIONS_CLIENT_def AES_KEY_LENGTH_def)

lemma pbkdf2_total:
  "iterations \<noteq> 0 \<Longrightarrow> keyLength \<noteq> 0 \<Longrightarrow> keyLength mod 8 = 0 \<Longrightarrow>
   pbkdf2 H password salt iterations keyLength =
     Inr (arrayBufferToHex (PBKDF2_HMAC_SHA512 H (stringToArrayBuffer password)
       (stringToArrayBuffer salt) iterations (keyLength div 8)))"
  by (simp add: pbkdf2_def deriveBits_PBKDF2_def Let_def)







section \<open>Private key storage\<close>

lemma serialized_jwk_dropBOM: "serialized_jwk s \<Longrightarrow> dropBOM s = s"
  by (cases s) (auto simp: serialized_jwk_def lit_def)

lemma encryptPrivateKey_total: "\<exists>blob. encryptPrivateKey H pk pp salt rnd = Inr blob"
  using aes_roundtrip by (fastforce simp: encryptPrivateKey_def deriveAESKeyFromPassword_total)

section \<open>The stand-in host at concrete inputs\<close>





lemma test_serialized: "serialized_jwk (lit ''{x}'')" "serialized_jwk (lit ''{}'')"
  by (simp_all add: serialized_jwk_def lit_def isWellFormed_def is_surrogate_def
      is_high_surrogate_def)


lemma deriveSharedSecret_test:
  "\<exists>k. deriveSharedSecret test_host (lit ''kk'') (lit ''kkk'') = Inr k"
  by (simp add: deriveSharedSecret_def importECDHPrivateKey_def importECDHPublicKey_def
      deriveBits_ECDH_def test_host_def lit_def AES_KEY_LENGTH_def Let_def)

lemma lit_values:
  "lit ''text'' \<noteq> lit ''plain''" "lit ''text'' \<noteq> lit ''system''"
  "lit ''text'' \<noteq> lit ''encrypted''"
  by (simp_all add: lit_def)

section \<open>The claims\<close>

subsection \<open>Shared-secret agreement\<close>

lemma ec_mult_add: "ec_mult (a + b) Q = ec_mult a Q + ec_mult b Q"
  by (induction a) (simp_all add: add.assoc)

lemma ec_mult_mult: "ec_mult a (ec_mult b Q) = ec_mult (a * b) Q"
  by (induction a) (simp_all add: ec_mult_add)

lemma ec_mult_commute: "ec_mult a (ec_mult b Q) = ec_mult b (ec_mult a Q)"
  by (simp add: ec_mult_mult mult.commute)

text \<open>
  C1. For two valid key pairs \<open>A\<close> and \<open>B\<close>, \<^verbatim>\<open>deriveSharedSecret\<close> of \<open>A\<close>'s private and
  \<open>B\<close>'s public key and \<^verbatim>\<open>deriveSharedSecret\<close> of \<open>B\<close>'s private and \<open>A\<close>'s public key give
  the same result, hence the same AES key. The curve enters as a monoid of points: the two
  scalar multiplications commute in any monoid.
\<close>

theorem deriveSharedSecret_symmetric:
  assumes "valid_key_pair H A" and "valid_key_pair H B"
  shows "deriveSharedSecret H (privateKey A) (publicKey B) =
         deriveSharedSecret H (privateKey B) (publicKey A)"
proof -
  obtain a where a: "importECDHPrivateKey H (privateKey A) = Inr a"
    "importECDHPublicKey H (publicKey A) = Inr (ec_mult a (ec_generator H))"
    using assms(1) by (auto simp: valid_key_pair_def split: sum.splits)
  obtain b where b: "importECDHPrivateKey H (privateKey B) = Inr b"
    "importECDHPublicKey H (publicKey B) = Inr (ec_mult b (ec_generator H))"
    using assms(2) by (auto simp: valid_key_pair_def split: sum.splits)
  show ?thesis
    by (simp add: deriveSharedSecret_def a b deriveBits_ECDH_def ec_mult_commute [of a b])
qed

theorem deriveSharedSecret_symmetric_witness:
  "valid_key_pair test_host \<lparr>publicKey = lit ''kk'', privateKey = lit ''kk''\<rparr>
   \<and> valid_key_pair test_host \<lparr>publicKey = lit ''kkk'', privateKey = lit ''kkk''\<rparr>
   \<and> deriveSharedSecret test_host (lit ''kk'') (lit ''kkk'') =
       deriveSharedSecret test_host (lit ''kkk'') (lit ''kk'')
   \<and> (\<exists>k. deriveSharedSecret test_host (lit ''kk'') (lit ''kkk'') = Inr k)"
proof -
  have A: "valid_key_pair test_host \<lparr>publicKey = lit ''kk'', privateKey = lit ''kk''\<rparr>"
    by (simp add: valid_key_pair_def importECDHPrivateKey_def importECDHPublicKey_def
        test_host_def lit_def)
  have B: "valid_key_pair test_host \<lparr>publicKey = lit ''kkk'', privateKey = lit ''kkk''\<rparr>"
    by (simp add: valid_key_pair_def importECDHPrivateKey_def importECDHPublicKey_def
        test_host_def lit_def)
  from deriveSharedSecret_symmetric [OF A B] A B deriveSharedSecret_test
  show ?thesis by simp
qed

subsection \<open>Round trip of a sealed field\<close>

text \<open>
  C2, as amended. For every well-formed string \<open>s\<close> (the empty one included), every key and
  every IV drawn, \<^verbatim>\<open>aesEncrypt\<close> returns a blob and \<^verbatim>\<open>aesDecrypt\<close> of that blob under the
  same key returns \<open>s\<close> without its leading U+FEFF, if it has one; so it returns \<open>s\<close> itself
  whenever \<open>s\<close> does not begin with U+FEFF.
\<close>

theorem aesDecrypt_aesEncrypt:
  assumes "isWellFormed s"
  shows "\<exists>blob. aesEncrypt H s key rnd = Inr blob
           \<and> aesDecrypt H blob key = Inr (dropBOM s)
           \<and> (take 1 s \<noteq> [0xFEFF] \<longrightarrow> aesDecrypt H blob key = Inr s)"
  using open_sealed_field [OF assms, of H key rnd] dropBOM_id [of s] by auto

theorem aesDecrypt_aesEncrypt_witness:
  "isWellFormed [] \<and> isWellFormed (lit ''hi'')
   \<and> (\<exists>blob. aesEncrypt test_host [] (replicate 32 1) (\<lambda>i. 0) = Inr blob
         \<and> aesDecrypt test_host blob (replicate 32 1) = Inr [])
   \<and> (\<exists>blob. aesEncrypt test_host (lit ''hi'') (replicate 32 1) (\<lambda>i. 0) = Inr blob
         \<and> aesDecrypt test_host blob (replicate 32 1) = Inr (lit ''hi''))"
proof -
  have e: "isWellFormed []" and h: "isWellFormed (lit ''hi'')"
    by (simp_all add: isWellFormed_def lit_def is_surrogate_def is_high_surrogate_def)
  have "take 1 (lit ''hi'') \<noteq> [0xFEFF]" by (simp add: lit_def)
  with aesDecrypt_aesEncrypt [OF e, of test_host "replicate 32 1" "\<lambda>i. 0"]
    aesDecrypt_aesEncrypt [OF h, of test_host "replicate 32 1" "\<lambda>i. 0"] e h
  show ?thesis by auto
qed

text \<open>The claim as stated fails for a string that begins with U+FEFF: the decoder drops
  the mark.\<close>

theorem aesDecrypt_BOM_counterexample:
  "\<exists>blob. aesEncrypt test_host [0xFEFF, 0x68, 0x69] (replicate 32 7) (\<lambda>i. 0) = Inr blob
     \<and> aesDecrypt test_host blob (replicate 32 7) = Inr [0x68, 0x69]
     \<and> aesDecrypt test_host blob (replicate 32 7) \<noteq> Inr [0xFEFF, 0x68, 0x69]"
proof -
  have wf: "isWellFormed [0xFEFF, 0x68, 0x69]"
    by (simp add: isWellFormed_def is_surrogate_def is_high_surrogate_def)
  from open_sealed_field [OF wf, of test_host "replicate 32 7" "\<lambda>i. 0"]
  show ?thesis by auto
qed

subsection \<open>Tamper detection\<close>



subsection \<open>Channel identifiers\<close>

lemma sort_pair: "sort [a, b] = (if a \<le> b then [a, b] else [b, a])"
  by simp

text \<open>
  C4. \<^verbatim>\<open>generateChannelId\<close> does not depend on the order of its two arguments, and its
  value is the hexadecimal SHA-256 of the two hashes in lexicographic order joined by a colon.
  It is a function of its arguments alone, so repeated calls give the same value.
\<close>

theorem generateChannelId_symmetric:
  "generateChannelId H h1 h2 = generateChannelId H h2 h1
   \<and> generateChannelId H h1 h2 = channelId_spec H h1 h2"
proof -
  have "js_join (lit '':'') (sort [h1, h2]) = min h1 h2 @ lit '':'' @ max h1 h2"
    by (simp add: sort_pair min_def max_def)
  moreover have "js_join (lit '':'') (sort [h2, h1]) = min h1 h2 @ lit '':'' @ max h1 h2"
    by (auto simp add: sort_pair min_def max_def)
  ultimately show ?thesis
    unfolding generateChannelId_def channelId_spec_def sha256_def Let_def by simp
qed

subsection \<open>Wrapping and unwrapping the private key\<close>

text \<open>
  C5. For every serialized private key \<open>pk\<close>, passphrase and salt, \<^verbatim>\<open>encryptPrivateKey\<close>
  returns a blob and \<^verbatim>\<open>decryptPrivateKey\<close> of it with the same passphrase and salt
  returns \<open>pk\<close>.
\<close>

theorem decryptPrivateKey_encryptPrivateKey:
  assumes "serialized_jwk pk"
  shows "\<exists>blob. encryptPrivateKey H pk pp salt rnd = Inr blob
           \<and> decryptPrivateKey H blob pp salt = Inr pk"
proof -
  obtain key where key: "deriveAESKeyFromPassword H pp salt = Inr key"
    using deriveAESKeyFromPassword_total by blast
  have "isWellFormed pk" using assms by (simp add: serialized_jwk_def)
  then obtain blob where "aesEncrypt H pk key rnd = Inr blob"
    and "aesDecrypt H blob key = Inr (dropBOM pk)"
    using open_sealed_field by blast
  then have "encryptPrivateKey H pk pp salt rnd = Inr blob"
    and "decryptPrivateKey H blob pp salt = Inr pk"
    using key serialized_jwk_dropBOM [OF assms]
    by (simp_all add: encryptPrivateKey_def decryptPrivateKey_def)
  then show ?thesis by blast
qed

theorem decryptPrivateKey_encryptPrivateKey_witness:
  "serialized_jwk (lit ''{x}'')
   \<and> (\<exists>blob. encryptPrivateKey test_host (lit ''{x}'') (lit ''pw'') (lit ''s1'') (\<lambda>i. 3) = Inr blob
         \<and> decryptPrivateKey test_host blob (lit ''pw'') (lit ''s1'') = Inr (lit ''{x}''))"
  using decryptPrivateKey_encryptPrivateKey [OF test_serialized(1), of test_host "lit ''pw''"
      "lit ''s1''" "\<lambda>i. 3"] test_serialized(1)
  by simp




subsection \<open>Opening a message\<close>

text \<open>
  C7. When the shared key is derived and opening any of the three payload fields fails,
  \<^verbatim>\<open>decryptMessage\<close> does not raise: it returns the message it was given with
  \<open>decrypted\<close> false and \<open>decryptionError\<close> true, every other property as it was.
\<close>

theorem decryptMessage_marks_failure:
  assumes "deriveSharedSecret H priv pub = Inr sharedKey"
    and "isl (aesDecrypt H (senderName m) sharedKey)
         \<or> isl (aesDecrypt H (message m) sharedKey)
         \<or> isl (aesDecrypt H (timestamp m) sharedKey)"
  shows "decryptMessage H m priv pub =
           Inr (m\<lparr>decrypted := Some False, decryptionError := Some True\<rparr>)"
proof -
  have "isl (decryptMessage_try H m priv pub)"
    using assms by (auto simp: decryptMessage_try_def await_def isl_def split: sum.splits)
  then show ?thesis by (auto simp: decryptMessage_def isl_def)
qed

theorem decryptMessage_marks_failure_witness:
  "\<exists>k b1 b2 b3.
     deriveSharedSecret test_host (lit ''kk'') (lit ''kkk'') = Inr k
     \<and> aesEncrypt test_host (lit ''alice'') k (\<lambda>i. 0) = Inr b1
     \<and> aesEncrypt_changed_tag test_host (lit ''hi'') k (\<lambda>i. 1) = Inr b2
     \<and> aesEncrypt test_host (lit ''t0'') k (\<lambda>i. 2) = Inr b3
     \<and> isl (aesDecrypt test_host b2 k)
     \<and> decryptMessage test_host
           (sample_message\<lparr>senderName := b1, message := b2, timestamp := b3,
              messageType := lit ''encrypted''\<rparr>)
           (lit ''kk'') (lit ''kkk'') =
         Inr (sample_message\<lparr>senderName := b1, message := b2, timestamp := b3,
                messageType := lit ''encrypted'',
                decrypted := Some False, decryptionError := Some True\<rparr>)"
proof -
  obtain k where k: "deriveSharedSecret test_host (lit ''kk'') (lit ''kkk'') = Inr k"
    using deriveSharedSecret_test by blast
  obtain b1 b3 where b1: "aesEncrypt test_host (lit ''alice'') k (\<lambda>i. 0) = Inr b1"
    and b3: "aesEncrypt test_host (lit ''t0'') k (\<lambda>i. 2) = Inr b3"
    using aesEncrypt_returns by metis
  obtain b2 where b2: "aesEncrypt_changed_tag test_host (lit ''hi'') k (\<lambda>i. 1) = Inr b2"
    using aesEncrypt_changed_tag_total by blast
  let ?m = "sample_message\<lparr>senderName := b1, message := b2, timestamp := b3,
              messageType := lit ''encrypted''\<rparr>"
  have f: "isl (aesDecrypt test_host b2 k)"
    using aesDecrypt_changed_tag [OF b2] by simp
  then have "isl (aesDecrypt test_host (senderName ?m) k)
         \<or> isl (aesDecrypt test_host (message ?m) k)
         \<or> isl (aesDecrypt test_host (timestamp ?m) k)"
    by simp
  from decryptMessage_marks_failure [OF k this] k b1 b2 b3 f show ?thesis by auto
qed

text \<open>
  C10. \<^verbatim>\<open>decryptMessage\<close> always returns a message. Its \<open>channel\<close>, both key hashes,
  \<open>messageType\<close> and any further properties are those of the input. Either the shared key was derived, all three payload
  fields are the decryptions of the input's and \<open>decrypted\<close> is true; or all three payload
  fields are the input's, \<open>decrypted\<close> is false and \<open>decryptionError\<close> is true.
\<close>

theorem decryptMessage_frame:
  "\<exists>r. decryptMessage H m priv pub = Inr r
     \<and> channel r = channel m
     \<and> senderPublicKeyHash r = senderPublicKeyHash m
     \<and> receiverPublicKeyHash r = receiverPublicKeyHash m
     \<and> messageType r = messageType m
     \<and> chat_message.more r = chat_message.more m
     \<and> ((\<exists>k. deriveSharedSecret H priv pub = Inr k
            \<and> aesDecrypt H (senderName m) k = Inr (senderName r)
            \<and> aesDecrypt H (message m) k = Inr (message r)
            \<and> aesDecrypt H (timestamp m) k = Inr (timestamp r)
            \<and> decrypted r = Some True)
          \<or> (senderName r = senderName m \<and> message r = message m
              \<and> timestamp r = timestamp m
              \<and> decrypted r = Some False \<and> decryptionError r = Some True))"
  by (auto simp: decryptMessage_def decryptMessage_try_def await_def split: sum.splits)

subsection \<open>Message types\<close>

lemma encryptMessage_messageType:
  "encryptMessage H m priv pub r1 r2 r3 = Inr e \<Longrightarrow> messageType e = lit ''encrypted''"
  by (auto simp: encryptMessage_def await_def split: sum.splits)

lemma encryptMessage_total:
  "deriveSharedSecret H priv pub = Inr k \<Longrightarrow> \<exists>e. encryptMessage H m priv pub r1 r2 r3 = Inr e"
proof -
  assume k: "deriveSharedSecret H priv pub = Inr k"
  obtain b1 b2 b3 where "aesEncrypt H (senderName m) k r1 = Inr b1"
    "aesEncrypt H (message m) k r2 = Inr b2" "aesEncrypt H (timestamp m) k r3 = Inr b3"
    using aes_roundtrip by metis
  then show ?thesis by (simp add: encryptMessage_def k)
qed

text \<open>
  C8, as amended. A message made by \<^verbatim>\<open>encryptMessage\<close> has \<open>messageType\<close>
  \<^verbatim>\<open>'encrypted'\<close>; the message data of \<^verbatim>\<open>sendMessage\<close> has a \<open>messageType\<close> in
  \<open>{text, system, encrypted}\<close>, and it is \<^verbatim>\<open>'text'\<close> when the message is not encrypted.
\<close>

theorem messageType_constructed:
  "(encryptMessage H m priv pub r1 r2 r3 = Inr e \<longrightarrow> messageType e = lit ''encrypted'')
   \<and> (sendMessage H currentChannel mate usr pk content ts r1 r2 r3 = Inr d \<longrightarrow>
        messageType d \<in> {lit ''text'', lit ''system'', lit ''encrypted''}
        \<and> (messageType d \<noteq> lit ''encrypted'' \<longrightarrow> messageType d = lit ''text''))"
proof -
  have "messageType d = lit ''text'' \<or> messageType d = lit ''encrypted''"
    if "sendMessage H currentChannel mate usr pk content ts r1 r2 r3 = Inr d"
    using that encryptMessage_messageType
    by (fastforce simp: sendMessage_def Let_def split: option.splits if_splits)
  then show ?thesis using encryptMessage_messageType [of H m priv pub r1 r2 r3 e] by auto
qed

theorem messageType_constructed_witness:
  "\<exists>e d. encryptMessage test_host sample_message (lit ''kk'') (lit ''kkk'')
            (\<lambda>i. 0) (\<lambda>i. 1) (\<lambda>i. 2) = Inr e
     \<and> messageType e = lit ''encrypted''
     \<and> sendMessage test_host (lit ''global'') None
          \<lparr>user_name = lit ''alice'', user_publicKey = None, user_publicKeyHash = lit ''ab''\<rparr>
          (lit ''kk'') (lit ''hi'') (lit ''t0'') (\<lambda>i. 0) (\<lambda>i. 1) (\<lambda>i. 2) = Inr d
     \<and> messageType d \<in> {lit ''text'', lit ''system'', lit ''encrypted''}
     \<and> messageType d = lit ''text''"
proof -
  obtain k where "deriveSharedSecret test_host (lit ''kk'') (lit ''kkk'') = Inr k"
    using deriveSharedSecret_test by blast
  then obtain e where e: "encryptMessage test_host sample_message (lit ''kk'') (lit ''kkk'')
            (\<lambda>i. 0) (\<lambda>i. 1) (\<lambda>i. 2) = Inr e"
    using encryptMessage_total by blast
  obtain d where d: "sendMessage test_host (lit ''global'') None
          \<lparr>user_name = lit ''alice'', user_publicKey = None, user_publicKeyHash = lit ''ab''\<rparr>
          (lit ''kk'') (lit ''hi'') (lit ''t0'') (\<lambda>i. 0) (\<lambda>i. 1) (\<lambda>i. 2) = Inr d"
    and t: "messageType d \<noteq> lit ''encrypted''"
    by (simp add: sendMessage_def lit_values)
  from messageType_constructed [of test_host sample_message "lit ''kk''" "lit ''kkk''"
      "\<lambda>i. 0" "\<lambda>i. 1" "\<lambda>i. 2" e "lit ''global''" None
      "\<lparr>user_name = lit ''alice'', user_publicKey = None, user_publicKeyHash = lit ''ab''\<rparr>"
      "lit ''kk''" "lit ''hi''" "lit ''t0''" d] e d t
  show ?thesis by blast
qed

text \<open>The claim as stated fails: a message sent to the global room has the type
  \<^verbatim>\<open>'text'\<close>, which is none of \<open>plain\<close>, \<open>system\<close>, \<open>encrypted\<close>.\<close>

theorem sendMessage_plain_counterexample:
  "\<exists>d. sendMessage test_host (lit ''global'') None
      \<lparr>user_name = lit ''alice'', user_publicKey = None, user_publicKeyHash = lit ''ab''\<rparr>
      (lit ''k'') (lit ''hi'') (lit ''t0'') (\<lambda>i. 0) (\<lambda>i. 0) (\<lambda>i. 0) = Inr d
    \<and> messageType d = lit ''text''
    \<and> messageType d \<notin> {lit ''plain'', lit ''system'', lit ''encrypted''}"
  by (simp add: sendMessage_def lit_values)

subsection \<open>The client auth value\<close>

lemma pbkdf2_clientAuth:
  "pbkdf2 H password (toLowerCase H usr) 25000 512 = Inr (clientAuth_spec H password usr)"
  by (simp add: pbkdf2_total clientAuth_spec_def)

text \<open>
  C9. \<^verbatim>\<open>register\<close> and \<^verbatim>\<open>login\<close> both reach their request, and the \<open>auth\<close> value of
  either is the hexadecimal PBKDF2-HMAC-SHA-512 of the password with the lower-cased user
  name as salt, 25000 iterations and 512 bits of output: the same function of user name and
  password on both paths.
\<close>

theorem register_login_clientAuth:
  "(\<exists>r. register H usr password keyPair rnd_salt rnd_iv = Inr r
        \<and> auth r = clientAuth_spec H password usr)
   \<and> (\<exists>c. login H usr password = Inr c \<and> auth c = clientAuth_spec H password usr)"
proof -
  obtain salt where salt: "arrayBufferToBase64 (getRandomBytes 16 rnd_salt) = Inr salt"
    using arrayBufferToBase64_total by blast
  obtain pass where
    pass: "pbkdf2 H (clientAuth_spec H password usr @ password) salt 25000 256 = Inr pass"
    by (simp add: pbkdf2_total)
  obtain blob where blob: "encryptPrivateKey H (privateKey keyPair) pass salt rnd_iv = Inr blob"
    using encryptPrivateKey_total by blast
  show ?thesis
    by (simp add: register_def login_def pbkdf2_clientAuth Let_def salt pass blob)
qed

end
